theory Spec2Isabelle
  imports Complex_Main
begin

section \<open>The HHG independence test of mgcpy (\<^verbatim>\<open>mgcpy/independence_tests/hhg.py\<close>)\<close>

text \<open>
  The class \<^verbatim>\<open>HHG\<close> has two operations, \<^verbatim>\<open>test_statistic\<close> and \<^verbatim>\<open>p_value\<close>.
  A 2-D \<^verbatim>\<open>numpy\<close> array of dtype \<^verbatim>\<open>float64\<close> is modelled as the list of its rows;
  arrays of an integer dtype are not modelled. \<^verbatim>\<open>NaN\<close> and infinities are outside the
  model. The test of the diagonal at lines 56 and 60 is modelled with the rounding of
  double precision, since a square that underflows to zero changes the branch taken;
  the distances, the division of line 80 and the sum of line 81 are computed with the
  reals. The local counts and the products of lines 77--80 are \<^verbatim>\<open>int64\<close> values
  (numpy's default integer on Linux and macOS) and wrap around as they do there. An
  array of shape \<open>(0, p)\<close> with \<open>p > 0\<close> has no representation as a list of rows; the
  empty list stands for the array of shape \<open>(0, 0)\<close>.
\<close>

subsection \<open>Data\<close>

type_synonym matrix = "real list list"

type_synonym metadata = "string \<rightharpoonup> real"

text \<open>
  The exceptions a call can end with. The first five are raised by Python and numpy
  on the paths of the source. \<open>DimensionMismatchError\<close> and \<open>InvalidInputError\<close> are
  the two error kinds the specification names; no line of the source raises them.
\<close>

datatype py_error =
    TypeError
  | AttributeError
  | IndexError
  | ValueError
  | ZeroDivisionError
  | DimensionMismatchError
  | InvalidInputError

text \<open>
  The attributes of an \<^verbatim>\<open>HHG\<close> object that the two methods read or write. \<open>None\<close> is an
  attribute that is not set (reading it raises \<^verbatim>\<open>AttributeError\<close>). The attributes
  \<^verbatim>\<open>self.matrix_X\<close>, \<^verbatim>\<open>self.test_statistic_\<close>, \<^verbatim>\<open>self.p_value_\<close> and the others are
  the fields \<open>attr_matrix_X\<close>, \<open>attr_test_statistic\<close>, \<open>attr_p_value\<close> and so on (the
  parameters of the methods keep the names \<open>matrix_X\<close> and \<open>matrix_Y\<close>).
\<close>

record hhg =
  attr_matrix_X :: "matrix option"
  attr_matrix_Y :: "matrix option"
  attr_test_statistic :: "real option"
  attr_test_statistic_metadata :: "metadata option"
  attr_p_value :: "real option"
  attr_p_value_metadata :: "metadata option"

subsection \<open>numpy and scipy operations used by the source\<close>

definition shape0 :: "matrix \<Rightarrow> nat" where
  "shape0 M = length M"

definition shape1 :: "matrix \<Rightarrow> nat" where
  "shape1 M = (case M of [] \<Rightarrow> 0 | r # _ \<Rightarrow> length r)"

text \<open>\<^verbatim>\<open>M.diagonal()\<close>: the entries \<open>M[i, i]\<close> for \<open>i < min(shape)\<close>.\<close>

definition diagonal :: "matrix \<Rightarrow> real list" where
  "diagonal M = map (\<lambda>i. M ! i ! i) [0..<min (shape0 M) (shape1 M)]"

text \<open>
  \<^verbatim>\<open>scipy.spatial.distance_matrix(x, y)\<close> with its default \<open>p = 2\<close>: entry \<open>(i, j)\<close> is
  \<^verbatim>\<open>np.sum(np.abs(y[j] - x[i])**2)**(1./2)\<close>.
\<close>

definition minkowski_distance :: "real list \<Rightarrow> real list \<Rightarrow> real" where
  "minkowski_distance x y = sqrt (sum_list (map2 (\<lambda>a b. \<bar>b - a\<bar> ^ 2) x y))"

definition distance_matrix :: "matrix \<Rightarrow> matrix \<Rightarrow> matrix" where
  "distance_matrix x y = map (\<lambda>xi. map (\<lambda>yj. minkowski_distance xi yj) y) x"

text \<open>\<^verbatim>\<open>np.zeros((n, n))\<close> and \<^verbatim>\<open>np.sum\<close> of a 2-D array.\<close>

definition zeros :: "nat \<Rightarrow> nat \<Rightarrow> matrix" where
  "zeros n m = replicate n (replicate m 0)"

definition np_sum :: "matrix \<Rightarrow> real" where
  "np_sum S = sum_list (map sum_list S)"

text \<open>
  The elementwise product of two 1-D arrays, with numpy's broadcasting: equal lengths,
  or one operand of length one; any other pair of lengths raises \<^verbatim>\<open>ValueError\<close>.
  A boolean array is the list of its entries as \<open>0\<close> and \<open>1\<close>.
\<close>

definition np_mul :: "int list \<Rightarrow> int list \<Rightarrow> py_error + int list" where
  "np_mul xs ys =
     (if length xs = length ys then Inr (map2 (*) xs ys)
      else if length xs = 1 then Inr (map ((*) (hd xs)) ys)
      else if length ys = 1 then Inr (map (\<lambda>x. x * hd ys) xs)
      else Inl ValueError)"

text \<open>
  A result of \<^verbatim>\<open>int64\<close> arithmetic: the value modulo \<open>2 ^ 64\<close> in the range from
  \<open>- 2 ^ 63\<close> to \<open>2 ^ 63 - 1\<close>.
\<close>

definition wrap64 :: "int \<Rightarrow> int" where
  "wrap64 x = (x + 2 ^ 63) mod 2 ^ 64 - 2 ^ 63"

text \<open>
  A result of \<^verbatim>\<open>float64\<close> arithmetic: the real value rounded to the nearest double,
  ties to even. The doubles with exponent \<open>e\<close> are the multiples of \<open>2 ^ (e - 52)\<close>;
  below \<open>2 ^ - 1022\<close> they are the multiples of \<open>2 ^ - 1074\<close>. Values too large for a
  double (infinities) are outside the model.
\<close>

definition rne :: "real \<Rightarrow> int" where
  "rne y =
     (let f = \<lfloor>y\<rfloor>; r = y - of_int f in
      if r < 1 / 2 then f else if 1 / 2 < r then f + 1 else if even f then f else f + 1)"

definition fl64 :: "real \<Rightarrow> real" where
  "fl64 x =
     (if x = 0 then 0
      else
        let e = max \<lfloor>log 2 \<bar>x\<bar>\<rfloor> (- 1022);
            u = 2 powr (of_int e - 52)
        in u * of_int (rne (x / u)))"

text \<open>
  \<^verbatim>\<open>sum(d**2)\<close> for a 1-D float array \<open>d\<close>: numpy squares each entry, and Python's
  \<^verbatim>\<open>sum\<close> adds the squares from left to right, starting from \<open>0\<close>.
\<close>

definition float_sq_sum :: "real list \<Rightarrow> real" where
  "float_sq_sum d = foldl (\<lambda>acc s. fl64 (acc + s)) 0 (map (\<lambda>x. fl64 (x * x)) d)"

subsection \<open>\<^verbatim>\<open>HHG.test_statistic\<close>\<close>

text \<open>
  Lines 56--59 and 60--63: the same conditional, once for each input. The matrix is
  kept when it is square and \<^verbatim>\<open>sum(M.diagonal()**2) > 0\<close> is false, in the arithmetic
  of the program; otherwise the distance matrix of its rows replaces it.
\<close>

definition dist_mtx :: "matrix \<Rightarrow> matrix" where
  "dist_mtx M =
     (let row = shape0 M; columns = shape1 M in
      if row \<noteq> columns \<or> float_sq_sum (diagonal M) > 0
      then distance_matrix M M
      else M)"

text \<open>
  Lines 71--76 for one pair \<open>(i, j)\<close>: the two indicator rows and the four counts.
  Reading \<open>dist[i, :]\<close> or \<open>dist[i, j]\<close> out of range raises \<^verbatim>\<open>IndexError\<close>; the four
  products have operands of the same two lengths, so they fail together.
\<close>

definition contingency :: "matrix \<Rightarrow> matrix \<Rightarrow> nat \<Rightarrow> nat \<Rightarrow> py_error + int \<times> int \<times> int \<times> int" where
  "contingency dist_mtx_X dist_mtx_Y i j =
     (if \<not> (i < shape0 dist_mtx_X \<and> j < length (dist_mtx_X ! i)) then Inl IndexError
      else if \<not> (i < shape0 dist_mtx_Y \<and> j < length (dist_mtx_Y ! i)) then Inl IndexError
      else
        let tmp1 = map (\<lambda>d. of_bool (d \<le> dist_mtx_X ! i ! j)) (dist_mtx_X ! i);
            tmp2 = map (\<lambda>d. of_bool (d \<le> dist_mtx_Y ! i ! j)) (dist_mtx_Y ! i);
            neg1 = map (\<lambda>b. 1 - b) tmp1;
            neg2 = map (\<lambda>b. 1 - b) tmp2
        in case (np_mul tmp1 tmp2, np_mul tmp1 neg2, np_mul neg1 tmp2, np_mul neg1 neg2) of
             (Inr p11, Inr p12, Inr p21, Inr p22) \<Rightarrow>
               Inr (sum_list p11 - 2, sum_list p12, sum_list p21, sum_list p22)
           | _ \<Rightarrow> Inl ValueError)"

text \<open>
  Lines 77--80: the denominator and the value stored in \<open>S[i, j]\<close> when it is positive.
  The four counts are \<^verbatim>\<open>np.int64\<close> scalars, so every sum, difference and product of
  them is one as well, and so are \<^verbatim>\<open>np.power(..., 2)\<close> and its product with the Python
  integer \<open>n - 2\<close>; the division of two \<^verbatim>\<open>int64\<close> values gives a float.
\<close>

definition denom_of :: "int \<times> int \<times> int \<times> int \<Rightarrow> int" where
  "denom_of t = (case t of (t11, t12, t21, t22) \<Rightarrow>
     wrap64 (wrap64 (wrap64 (wrap64 (t11 + t12) * wrap64 (t21 + t22)) * wrap64 (t11 + t21))
       * wrap64 (t12 + t22)))"

definition term_of :: "nat \<Rightarrow> int \<times> int \<times> int \<times> int \<Rightarrow> real" where
  "term_of n t = (case t of (t11, t12, t21, t22) \<Rightarrow>
     real_of_int
       (wrap64 ((int n - 2) * wrap64 ((wrap64 (wrap64 (t12 * t21) - wrap64 (t11 * t22))) ^ 2)))
     / real_of_int (denom_of t))"

definition pair_update :: "matrix \<Rightarrow> matrix \<Rightarrow> nat \<Rightarrow> nat \<Rightarrow> nat \<Rightarrow> matrix \<Rightarrow> py_error + matrix" where
  "pair_update dist_mtx_X dist_mtx_Y n i j S =
     (case contingency dist_mtx_X dist_mtx_Y i j of
        Inl e \<Rightarrow> Inl e
      | Inr t \<Rightarrow>
          if denom_of t > 0 then Inr (S[i := (S ! i)[j := term_of n t]])
          else Inr S)"

text \<open>Lines 68--80: the two loops over \<^verbatim>\<open>range(n)\<close>; an exception ends both.\<close>

fun loop_j :: "matrix \<Rightarrow> matrix \<Rightarrow> nat \<Rightarrow> nat \<Rightarrow> nat list \<Rightarrow> matrix \<Rightarrow> py_error + matrix" where
  "loop_j dist_mtx_X dist_mtx_Y n i [] S = Inr S"
| "loop_j dist_mtx_X dist_mtx_Y n i (j # js) S =
     (if i \<noteq> j then
        (case pair_update dist_mtx_X dist_mtx_Y n i j S of
           Inl e \<Rightarrow> Inl e
         | Inr S' \<Rightarrow> loop_j dist_mtx_X dist_mtx_Y n i js S')
      else loop_j dist_mtx_X dist_mtx_Y n i js S)"

fun loop_i :: "matrix \<Rightarrow> matrix \<Rightarrow> nat \<Rightarrow> nat list \<Rightarrow> matrix \<Rightarrow> py_error + matrix" where
  "loop_i dist_mtx_X dist_mtx_Y n [] S = Inr S"
| "loop_i dist_mtx_X dist_mtx_Y n (i # is) S =
     (case loop_j dist_mtx_X dist_mtx_Y n i [0..<n] S of
        Inl e \<Rightarrow> Inl e
      | Inr S' \<Rightarrow> loop_i dist_mtx_X dist_mtx_Y n is S')"

text \<open>Lines 65--81: \<open>n\<close>, the zero matrix \<open>S\<close>, the loops and \<^verbatim>\<open>corr = np.sum(S)\<close>.\<close>

definition corr_of :: "matrix \<Rightarrow> matrix \<Rightarrow> py_error + real" where
  "corr_of dist_mtx_X dist_mtx_Y =
     (let n = shape0 dist_mtx_X; S = zeros n n in
      case loop_i dist_mtx_X dist_mtx_Y n [0..<n] S of
        Inl e \<Rightarrow> Inl e
      | Inr S' \<Rightarrow> Inr (np_sum S'))"

text \<open>
  The method: the result (an exception, or the pair of the statistic and the empty
  metadata) and the object after the call. The two attributes are written at lines
  84--85, after the loops, so an exception leaves the object as it was.
\<close>

definition test_statistic :: "hhg \<Rightarrow> matrix \<Rightarrow> matrix \<Rightarrow> (py_error + real \<times> metadata) \<times> hhg" where
  "test_statistic self matrix_X matrix_Y =
     (let dist_mtx_X = dist_mtx matrix_X;
          dist_mtx_Y = dist_mtx matrix_Y
      in case corr_of dist_mtx_X dist_mtx_Y of
           Inl e \<Rightarrow> (Inl e, self)
         | Inr corr \<Rightarrow>
             (Inr (corr, Map.empty),
              self\<lparr>attr_test_statistic_metadata := Some Map.empty,
                   attr_test_statistic := Some corr\<rparr>))"

subsection \<open>\<^verbatim>\<open>HHG.p_value\<close>\<close>

text \<open>
  A method call. \<^verbatim>\<open>test_statistic(self, matrix_X, matrix_Y)\<close> declares both parameters
  without a default, so Python raises \<^verbatim>\<open>TypeError\<close> (missing required positional
  arguments) for a call that leaves one out, before the body runs. \<open>None\<close> is an
  argument the call does not pass.
\<close>

definition call_test_statistic ::
    "hhg \<Rightarrow> matrix option \<Rightarrow> matrix option \<Rightarrow> (py_error + real \<times> metadata) \<times> hhg" where
  "call_test_statistic self arg_X arg_Y =
     (case (arg_X, arg_Y) of
        (Some matrix_X, Some matrix_Y) \<Rightarrow> test_statistic self matrix_X matrix_Y
      | _ \<Rightarrow> (Inl TypeError, self))"

text \<open>
  \<^verbatim>\<open>np.random.permutation(M)\<close> of a 2-D array returns a copy with the rows in a random
  order; the columns stay. The generator is numpy's global one: \<open>draw\<close> is its step,
  from a generator state and a length \<open>n\<close> to an arrangement of the indices below \<open>n\<close>
  and the next state.
\<close>

definition take_rows :: "matrix \<Rightarrow> nat list \<Rightarrow> matrix" where
  "take_rows M idx = map (\<lambda>k. M ! k) idx"

definition np_random_permutation :: "('g \<Rightarrow> nat \<Rightarrow> nat list \<times> 'g) \<Rightarrow> 'g \<Rightarrow> matrix \<Rightarrow> matrix \<times> 'g" where
  "np_random_permutation draw rng M =
     (case draw rng (shape0 M) of (idx, rng') \<Rightarrow> (take_rows M idx, rng'))"

text \<open>
  Line 124 and the right-hand side of line 125: one replication reads the attribute
  \<^verbatim>\<open>self.matrix_Y\<close>, permutes its rows, reads \<^verbatim>\<open>self.matrix_X\<close> and calls
  \<^verbatim>\<open>test_statistic\<close> on the two.
\<close>

definition replication ::
    "('g \<Rightarrow> nat \<Rightarrow> nat list \<times> 'g) \<Rightarrow> hhg \<Rightarrow> 'g \<Rightarrow> (py_error + real \<times> metadata) \<times> hhg \<times> 'g" where
  "replication draw self rng =
     (case attr_matrix_Y self of
        None \<Rightarrow> (Inl AttributeError, self, rng)
      | Some my \<Rightarrow>
          (case np_random_permutation draw rng my of
             (permuted_y, rng') \<Rightarrow>
               (case attr_matrix_X self of
                  None \<Rightarrow> (Inl AttributeError, self, rng')
                | Some mx \<Rightarrow>
                    (case call_test_statistic self (Some mx) (Some permuted_y) of
                       (r, self') \<Rightarrow> (r, self', rng')))))"

text \<open>
  Lines 123--125. The value that line 125 stores in \<^verbatim>\<open>test_stats_null[rep]\<close> is the pair
  \<^verbatim>\<open>test_statistic\<close> returns; numpy refuses a sequence as one element of a float array
  (\<^verbatim>\<open>ValueError\<close>), so no iteration ends normally and the loop has no second iteration.
\<close>

fun null_loop ::
    "('g \<Rightarrow> nat \<Rightarrow> nat list \<times> 'g) \<Rightarrow> hhg \<Rightarrow> 'g \<Rightarrow> nat list \<Rightarrow> real list
      \<Rightarrow> (py_error + real list) \<times> hhg \<times> 'g" where
  "null_loop draw self rng [] test_stats_null = (Inr test_stats_null, self, rng)"
| "null_loop draw self rng (rep # reps) test_stats_null =
     (case replication draw self rng of
        (Inl e, self', rng') \<Rightarrow> (Inl e, self', rng')
      | (Inr stat_and_metadata, self', rng') \<Rightarrow> (Inl ValueError, self', rng'))"

text \<open>
  The method. Its parameters \<open>matrix_X\<close> and \<open>matrix_Y\<close> (default \<^verbatim>\<open>None\<close>) are not read
  by any line of the body. Line 120 calls \<^verbatim>\<open>self.test_statistic()\<close> with no argument.
  Line 122 is \<^verbatim>\<open>np.zeros(replication_factor)\<close>, a \<^verbatim>\<open>ValueError\<close> for a negative length.
  Line 128 compares the array with \<open>test_stat\<close>, which is the pair line 120 would bind;
  after a loop that ended normally the array is empty, and numpy cannot broadcast an
  empty array with a pair (\<^verbatim>\<open>ValueError\<close>). Lines 129--131 follow no path of the model.
\<close>

definition p_value ::
    "('g \<Rightarrow> nat \<Rightarrow> nat list \<times> 'g) \<Rightarrow> hhg \<Rightarrow> 'g \<Rightarrow> matrix option \<Rightarrow> matrix option \<Rightarrow> int
      \<Rightarrow> (py_error + real \<times> metadata) \<times> hhg \<times> 'g" where
  "p_value draw self rng matrix_X matrix_Y replication_factor =
     (case call_test_statistic self None None of
        (Inl e, self1) \<Rightarrow> (Inl e, self1, rng)
      | (Inr test_stat, self1) \<Rightarrow>
          if replication_factor < 0 then (Inl ValueError, self1, rng)
          else
            (case null_loop draw self1 rng [0..<nat replication_factor]
                    (replicate (nat replication_factor) 0) of
               (Inl e, self2, rng2) \<Rightarrow> (Inl e, self2, rng2)
             | (Inr test_stats_null, self2, rng2) \<Rightarrow> (Inl ValueError, self2, rng2)))"

text \<open>
  An object with no attribute set, and a generator step that always answers with the
  indices in reverse order (and has no state).
\<close>

definition unset :: hhg where
  "unset = \<lparr>attr_matrix_X = None, attr_matrix_Y = None, attr_test_statistic = None,
            attr_test_statistic_metadata = None, attr_p_value = None,
            attr_p_value_metadata = None\<rparr>"

definition draw_reverse :: "unit \<Rightarrow> nat \<Rightarrow> nat list \<times> unit" where
  "draw_reverse g n = (rev [0..<n], g)"

subsection \<open>The properties the specification states, in its own words\<close>

text \<open>A matrix given as rows of one length; an \<open>n\<close>-by-\<open>n\<close> matrix.\<close>

definition rectangular :: "matrix \<Rightarrow> bool" where
  "rectangular M = (\<forall>r \<in> set M. length r = shape1 M)"

definition is_square :: "nat \<Rightarrow> matrix \<Rightarrow> bool" where
  "is_square n D = (length D = n \<and> (\<forall>r \<in> set D. length r = n))"

definition zero_diagonal :: "nat \<Rightarrow> matrix \<Rightarrow> bool" where
  "zero_diagonal n D = (\<forall>i<n. D ! i ! i = 0)"

definition symmetric :: "nat \<Rightarrow> matrix \<Rightarrow> bool" where
  "symmetric n D = (\<forall>i<n. \<forall>j<n. D ! i ! j = D ! j ! i)"

text \<open>
  The distance matrix of the data model: square, symmetric, zero diagonal, and every
  entry a distance, hence not negative.
\<close>

definition is_distance_matrix :: "nat \<Rightarrow> matrix \<Rightarrow> bool" where
  "is_distance_matrix n D =
     (is_square n D \<and> zero_diagonal n D \<and> symmetric n D \<and> (\<forall>i<n. \<forall>j<n. 0 \<le> D ! i ! j))"

text \<open>
  The local contingency table of the pair \<open>(i, j)\<close>: the sizes of the four sets of
  points \<open>k\<close>, with two taken off the first.
\<close>

definition spec_counts :: "matrix \<Rightarrow> matrix \<Rightarrow> nat \<Rightarrow> nat \<Rightarrow> nat \<Rightarrow> int \<times> int \<times> int \<times> int" where
  "spec_counts Dx Dy n i j =
     (int (card {k. k < n \<and> Dx ! i ! k \<le> Dx ! i ! j \<and> Dy ! i ! k \<le> Dy ! i ! j}) - 2,
      int (card {k. k < n \<and> Dx ! i ! k \<le> Dx ! i ! j \<and> \<not> Dy ! i ! k \<le> Dy ! i ! j}),
      int (card {k. k < n \<and> \<not> Dx ! i ! k \<le> Dx ! i ! j \<and> Dy ! i ! k \<le> Dy ! i ! j}),
      int (card {k. k < n \<and> \<not> Dx ! i ! k \<le> Dx ! i ! j \<and> \<not> Dy ! i ! k \<le> Dy ! i ! j}))"

definition spec_contribution :: "matrix \<Rightarrow> matrix \<Rightarrow> nat \<Rightarrow> nat \<Rightarrow> nat \<Rightarrow> real" where
  "spec_contribution Dx Dy n i j =
     (case spec_counts Dx Dy n i j of (t11, t12, t21, t22) \<Rightarrow>
        let denom = (t11 + t12) * (t21 + t22) * (t11 + t21) * (t12 + t22) in
        if denom > 0
        then (real n - 2) * (real_of_int (t12 * t21 - t11 * t22)) ^ 2 / real_of_int denom
        else 0)"

definition spec_statistic :: "matrix \<Rightarrow> matrix \<Rightarrow> nat \<Rightarrow> real" where
  "spec_statistic Dx Dy n = (\<Sum>i<n. \<Sum>j \<in> {..<n} - {i}. spec_contribution Dx Dy n i j)"







subsection \<open>The value of the loops\<close>

text \<open>
  Whether the loops assign \<open>S[i, j]\<close>, and the entry of \<open>S\<close> when they end, for square
  inputs of one size.
\<close>

definition assigned :: "matrix \<Rightarrow> matrix \<Rightarrow> nat \<Rightarrow> nat \<Rightarrow> nat \<Rightarrow> bool" where
  "assigned Dx Dy n i j = (i \<noteq> j \<and> denom_of (spec_counts Dx Dy n i j) > 0)"

definition cell :: "matrix \<Rightarrow> matrix \<Rightarrow> nat \<Rightarrow> nat \<Rightarrow> nat \<Rightarrow> real" where
  "cell Dx Dy n i j =
     (if assigned Dx Dy n i j then term_of n (spec_counts Dx Dy n i j) else 0)"

subsection \<open>Example inputs\<close>

text \<open>Two distance matrices of four points (on a line, and in another order).\<close>

definition example_Dx :: matrix where
  "example_Dx = [[0, 1, 3, 4], [1, 0, 2, 3], [3, 2, 0, 1], [4, 3, 1, 0]]"

definition example_Dy :: matrix where
  "example_Dy = [[0, 2, 1, 5], [2, 0, 3, 1], [1, 3, 0, 4], [5, 1, 4, 0]]"

text \<open>The two ten-by-one samples of the docstrings of \<^verbatim>\<open>test_statistic\<close> and \<^verbatim>\<open>p_value\<close>.\<close>

definition docstring_X :: matrix where
  "docstring_X = [[0.07487683], [- 0.18073412], [0.37266440], [0.06074847], [0.76899045],
                  [0.51862516], [- 0.13480764], [- 0.54368083], [- 0.73812644], [0.54910974]]"

definition docstring_Y :: matrix where
  "docstring_Y = [[- 1.31741173], [- 0.41634224], [2.24021815], [0.88317196], [2.00149312],
                  [1.35857623], [- 0.06729464], [0.16168344], [- 0.61048226], [0.41711113]]"





text \<open>
  Two distance matrices of 11002 points with entries \<open>0\<close>, \<open>1\<close> and \<open>2\<close> (every such
  symmetric matrix with zero diagonal satisfies the triangle inequality). From point
  \<open>0\<close>, the points \<open>1\<close> to \<open>5501\<close> are at distance \<open>1\<close> in the first matrix and the points
  \<open>5501\<close> to \<open>11001\<close> in the second; every other pair of distinct points is at
  distance \<open>2\<close>.
\<close>

definition overflow_dx :: "nat \<Rightarrow> nat \<Rightarrow> real" where
  "overflow_dx i j =
     (if i = j then 0 else if (i = 0 \<and> j \<le> 5501) \<or> (j = 0 \<and> i \<le> 5501) then 1 else 2)"

definition overflow_dy :: "nat \<Rightarrow> nat \<Rightarrow> real" where
  "overflow_dy i j =
     (if i = j then 0 else if (i = 0 \<and> 5501 \<le> j) \<or> (j = 0 \<and> 5501 \<le> i) then 1 else 2)"

definition overflow_Dx :: matrix where
  "overflow_Dx = map (\<lambda>i. map (overflow_dx i) [0..<11002]) [0..<11002]"

definition overflow_Dy :: matrix where
  "overflow_Dy = map (\<lambda>i. map (overflow_dy i) [0..<11002]) [0..<11002]"

section \<open>The statistic on square matrices\<close>

subsection \<open>The counts of one pair\<close>

lemma is_square_nth: "is_square n D \<Longrightarrow> i < n \<Longrightarrow> length (D ! i) = n"
  by (simp add: is_square_def)

lemma is_square_length: "is_square n D \<Longrightarrow> length D = n"
  by (simp add: is_square_def)

lemma np_mul_same: "length xs = length ys \<Longrightarrow> np_mul xs ys = Inr (map2 (*) xs ys)"
  by (simp add: np_mul_def)

lemma sum_list_map2_nth:
  fixes f :: "'a \<Rightarrow> 'b \<Rightarrow> 'c::comm_monoid_add"
  assumes "length xs = n" "length ys = n"
  shows "sum_list (map2 f xs ys) = (\<Sum>k<n. f (xs ! k) (ys ! k))"
proof -
  have "sum_list (map2 f xs ys) = (\<Sum>k = 0..<length (map2 f xs ys). map2 f xs ys ! k)"
    by (rule sum_list_sum_nth)
  also have "\<dots> = (\<Sum>k = 0..<n. f (xs ! k) (ys ! k))"
    using assms by (intro sum.cong) auto
  finally show ?thesis by (simp add: lessThan_atLeast0)
qed

lemma count_indicator:
  fixes P Q :: "nat \<Rightarrow> bool"
  shows "(\<Sum>k<n. (of_bool (P k) :: int) * of_bool (Q k)) = int (card {k. k < n \<and> P k \<and> Q k})"
proof -
  have "(\<Sum>k<n. (of_bool (P k) :: int) * of_bool (Q k)) = (\<Sum>k<n. of_bool (P k \<and> Q k))"
    by (intro sum.cong) auto
  also have "\<dots> = int (card ({..<n} \<inter> {k. P k \<and> Q k}))"
    by simp
  also have "{..<n} \<inter> {k. P k \<and> Q k} = {k. k < n \<and> P k \<and> Q k}"
    by auto
  finally show ?thesis .
qed

lemma contingency_square:
  assumes "is_square n Dx" "is_square n Dy" "i < n" "j < n"
  shows "contingency Dx Dy i j = Inr (spec_counts Dx Dy n i j)"
proof -
  have lx: "length (Dx ! i) = n" and ly: "length (Dy ! i) = n"
    using assms by (simp_all add: is_square_nth)
  have len: "length Dx = n" "length Dy = n"
    using assms by (simp_all add: is_square_length)
  have neg: "\<And>b. (1::int) - of_bool b = of_bool (\<not> b)" by simp
  show ?thesis
    unfolding contingency_def Let_def shape0_def
    using assms(3,4)
    by (simp add: lx ly len np_mul_same sum_list_map2_nth [where n = n] neg
          count_indicator spec_counts_def)
qed


lemma pair_update_square:
  assumes "is_square n Dx" "is_square n Dy" "i < n" "j < n"
  shows "pair_update Dx Dy n i j S =
           Inr (if denom_of (spec_counts Dx Dy n i j) > 0
                then S[i := (S ! i)[j := term_of n (spec_counts Dx Dy n i j)]] else S)"
  by (simp add: pair_update_def contingency_square [OF assms])

lemma is_square_update:
  assumes "is_square n S" "i < n"
  shows "is_square n (S[i := (S ! i)[j := v]])"
  using assms unfolding is_square_def
  by (auto dest!: set_update_subset_insert [THEN subsetD])

lemma loop_j_square:
  assumes "is_square n Dx" "is_square n Dy" "i < n" "set js \<subseteq> {..<n}" "is_square n S"
  shows "\<exists>S'. loop_j Dx Dy n i js S = Inr S' \<and> is_square n S' \<and>
           (\<forall>r<n. \<forall>c<n. S' ! r ! c =
              (if r = i \<and> c \<in> set js \<and> assigned Dx Dy n i c then cell Dx Dy n i c else S ! r ! c))"
  using assms(4,5)
proof (induction js arbitrary: S)
  case Nil
  then show ?case by simp
next
  case (Cons j js)
  have j: "j < n" and js: "set js \<subseteq> {..<n}" using Cons.prems(1) by auto
  show ?case
  proof (cases "i = j")
    case True
    have "\<not> assigned Dx Dy n i i" by (simp add: assigned_def)
    with True Cons.IH [OF js Cons.prems(2)] show ?thesis by auto
  next
    case False
    define S1 where "S1 = (if denom_of (spec_counts Dx Dy n i j) > 0
                then S[i := (S ! i)[j := term_of n (spec_counts Dx Dy n i j)]] else S)"
    have pu: "pair_update Dx Dy n i j S = Inr S1"
      unfolding S1_def by (rule pair_update_square [OF assms(1,2,3) j])
    have sq1: "is_square n S1"
      unfolding S1_def using Cons.prems(2) assms(3) by (simp add: is_square_update)
    have S1_nth: "S1 ! r ! c = (if r = i \<and> c = j \<and> assigned Dx Dy n i j then cell Dx Dy n i j else S ! r ! c)"
      if "r < n" "c < n" for r c
      using that False Cons.prems(2) assms(3)
      by (auto simp: S1_def cell_def assigned_def is_square_length is_square_nth nth_list_update)
    from Cons.IH [OF js sq1] obtain S' where
      S': "loop_j Dx Dy n i js S1 = Inr S'" "is_square n S'"
        "\<forall>r<n. \<forall>c<n. S' ! r ! c =
              (if r = i \<and> c \<in> set js \<and> assigned Dx Dy n i c then cell Dx Dy n i c else S1 ! r ! c)"
      by blast
    have "loop_j Dx Dy n i (j # js) S = Inr S'"
      using False pu S'(1) by simp
    moreover have "\<forall>r<n. \<forall>c<n. S' ! r ! c =
              (if r = i \<and> c \<in> set (j # js) \<and> assigned Dx Dy n i c then cell Dx Dy n i c else S ! r ! c)"
      using S'(3) S1_nth by auto
    ultimately show ?thesis using S'(2) by blast
  qed
qed

lemma loop_i_square:
  assumes "is_square n Dx" "is_square n Dy" "set is \<subseteq> {..<n}" "is_square n S"
  shows "\<exists>S'. loop_i Dx Dy n is S = Inr S' \<and> is_square n S' \<and>
           (\<forall>r<n. \<forall>c<n. S' ! r ! c =
              (if r \<in> set is \<and> assigned Dx Dy n r c then cell Dx Dy n r c else S ! r ! c))"
  using assms(3,4)
proof (induction "is" arbitrary: S)
  case Nil
  then show ?case by simp
next
  case (Cons i "is")
  have i: "i < n" and "is": "set is \<subseteq> {..<n}" using Cons.prems(1) by auto
  have sub: "set [0..<n] \<subseteq> {..<n}" by auto
  from loop_j_square [OF assms(1,2) i sub Cons.prems(2)] obtain S1 where
    S1: "loop_j Dx Dy n i [0..<n] S = Inr S1" "is_square n S1"
      "\<forall>r<n. \<forall>c<n. S1 ! r ! c =
              (if r = i \<and> assigned Dx Dy n i c then cell Dx Dy n i c else S ! r ! c)"
    by auto
  from Cons.IH [OF "is" S1(2)] obtain S' where
    S': "loop_i Dx Dy n is S1 = Inr S'" "is_square n S'"
      "\<forall>r<n. \<forall>c<n. S' ! r ! c =
              (if r \<in> set is \<and> assigned Dx Dy n r c then cell Dx Dy n r c else S1 ! r ! c)"
    by blast
  have "loop_i Dx Dy n (i # is) S = Inr S'"
    using S1(1) S'(1) by simp
  moreover have "\<forall>r<n. \<forall>c<n. S' ! r ! c =
              (if r \<in> set (i # is) \<and> assigned Dx Dy n r c then cell Dx Dy n r c else S ! r ! c)"
    using S'(3) S1(3) by auto
  ultimately show ?case using S'(2) by blast
qed

lemma np_sum_square:
  assumes "is_square n S"
  shows "np_sum S = (\<Sum>r<n. \<Sum>c<n. S ! r ! c)"
proof -
  have "np_sum S = (\<Sum>r = 0..<length S. sum_list (S ! r))"
    unfolding np_sum_def by (simp add: sum_list_sum_nth)
  also have "\<dots> = (\<Sum>r = 0..<n. \<Sum>c = 0..<n. S ! r ! c)"
    using assms by (intro sum.cong) (auto simp: is_square_length is_square_nth sum_list_sum_nth)
  finally show ?thesis by (simp add: lessThan_atLeast0)
qed

lemma corr_of_square:
  assumes "is_square n Dx" "is_square n Dy"
  shows "corr_of Dx Dy = Inr (\<Sum>r<n. \<Sum>c<n. cell Dx Dy n r c)"
proof -
  have z: "is_square n (zeros n n)" by (simp add: is_square_def zeros_def)
  have sub: "set [0..<n] \<subseteq> {..<n}" by auto
  from loop_i_square [OF assms sub z] obtain S' where
    S': "loop_i Dx Dy n [0..<n] (zeros n n) = Inr S'" "is_square n S'"
      "\<forall>r<n. \<forall>c<n. S' ! r ! c = (if assigned Dx Dy n r c then cell Dx Dy n r c else zeros n n ! r ! c)"
    by auto
  have "S' ! r ! c = cell Dx Dy n r c" if "r < n" "c < n" for r c
    using S'(3) that by (simp add: zeros_def cell_def)
  then have "np_sum S' = (\<Sum>r<n. \<Sum>c<n. cell Dx Dy n r c)"
    by (simp add: np_sum_square [OF S'(2)])
  then show ?thesis
    using S'(1) assms(1) by (simp add: corr_of_def shape0_def is_square_length)
qed

subsection \<open>The arithmetic of the program\<close>

lemma wrap64_id: "- (2 ^ 63) \<le> x \<Longrightarrow> x < 2 ^ 63 \<Longrightarrow> wrap64 x = x"
  by (simp add: wrap64_def)

lemma wrap64_zero: "wrap64 0 = 0"
  by (simp add: wrap64_def)


lemma fl64_zero: "fl64 0 = 0"
  by (simp add: fl64_def)




lemma float_fold_zero:
  assumes "\<forall>s \<in> set ss. s = 0"
  shows "foldl (\<lambda>acc s. fl64 (acc + s)) 0 ss = 0"
  using assms by (induction ss) (simp_all add: fl64_zero)



lemma float_sq_sum_zero: "\<forall>x \<in> set d. x = 0 \<Longrightarrow> float_sq_sum d = 0"
  unfolding float_sq_sum_def by (rule float_fold_zero) (auto simp: fl64_zero)




lemma dist_mtx_pass:
  assumes "is_square n D" "zero_diagonal n D"
  shows "dist_mtx D = D"
proof -
  have s0: "shape0 D = n" using assms(1) by (simp add: shape0_def is_square_def)
  have s1: "shape1 D = n" using assms(1) by (cases D) (auto simp: shape1_def is_square_def)
  have "float_sq_sum (diagonal D) = 0"
    using assms(2) by (intro float_sq_sum_zero) (auto simp: diagonal_def s0 s1 zero_diagonal_def)
  then show ?thesis by (simp add: dist_mtx_def s0 s1)
qed

subsection \<open>The four counts split the points\<close>

lemma card_split:
  "card {k. k < n \<and> R k \<and> P k} + card {k. k < n \<and> R k \<and> \<not> P k} = card {k. k < (n::nat) \<and> R k}"
proof -
  have "card ({k. k < n \<and> R k \<and> P k} \<union> {k. k < n \<and> R k \<and> \<not> P k}) =
        card {k. k < n \<and> R k \<and> P k} + card {k. k < n \<and> R k \<and> \<not> P k}"
    by (rule card_Un_disjoint) auto
  moreover have "{k. k < n \<and> R k \<and> P k} \<union> {k. k < n \<and> R k \<and> \<not> P k} = {k. k < n \<and> R k}"
    by auto
  ultimately show ?thesis by simp
qed

lemma spec_counts_sum:
  "(case spec_counts Dx Dy n i j of (t11, t12, t21, t22) \<Rightarrow> t11 + t12 + t21 + t22) = int n - 2"
proof -
  let ?A = "\<lambda>k. Dx ! i ! k \<le> Dx ! i ! j"
  let ?B = "\<lambda>k. Dy ! i ! k \<le> Dy ! i ! j"
  have a: "card {k. k < n \<and> ?A k \<and> ?B k} + card {k. k < n \<and> ?A k \<and> \<not> ?B k} = card {k. k < n \<and> ?A k}"
    by (rule card_split)
  have b: "card {k. k < n \<and> \<not> ?A k \<and> ?B k} + card {k. k < n \<and> \<not> ?A k \<and> \<not> ?B k} = card {k. k < n \<and> \<not> ?A k}"
    by (rule card_split)
  have c: "card {k. k < n \<and> ?A k} + card {k. k < n \<and> \<not> ?A k} = n"
    using card_split [of n "\<lambda>_. True" ?A] by simp
  from a b c show ?thesis
    by (simp add: spec_counts_def)
qed

lemma spec_counts_t11_nonneg:
  assumes "i < n" "j < n" "i \<noteq> j" "Dx ! i ! i \<le> Dx ! i ! j" "Dy ! i ! i \<le> Dy ! i ! j"
  shows "0 \<le> fst (spec_counts Dx Dy n i j)"
proof -
  have "{i, j} \<subseteq> {k. k < n \<and> Dx ! i ! k \<le> Dx ! i ! j \<and> Dy ! i ! k \<le> Dy ! i ! j}"
    using assms by auto
  then have "card {i, j} \<le> card {k. k < n \<and> Dx ! i ! k \<le> Dx ! i ! j \<and> Dy ! i ! k \<le> Dy ! i ! j}"
    by (intro card_mono) auto
  with assms(3) show ?thesis by (simp add: spec_counts_def)
qed

subsection \<open>Products that do not wrap\<close>

lemma card_below: "card {k. k < n \<and> P k} \<le> (n::nat)"
proof -
  have "card {k. k < n \<and> P k} \<le> card {..<n}"
    by (rule card_mono) auto
  then show ?thesis by simp
qed

lemma spec_counts_bounds:
  assumes "spec_counts Dx Dy n i j = (t11, t12, t21, t22)"
  shows "- 2 \<le> t11" "t11 \<le> int n" "0 \<le> t12" "t12 \<le> int n"
    "0 \<le> t21" "t21 \<le> int n" "0 \<le> t22" "t22 \<le> int n"
  using assms card_below [of n "\<lambda>k. Dx ! i ! k \<le> Dx ! i ! j \<and> Dy ! i ! k \<le> Dy ! i ! j"]
    card_below [of n "\<lambda>k. Dx ! i ! k \<le> Dx ! i ! j \<and> \<not> Dy ! i ! k \<le> Dy ! i ! j"]
    card_below [of n "\<lambda>k. \<not> Dx ! i ! k \<le> Dx ! i ! j \<and> Dy ! i ! k \<le> Dy ! i ! j"]
    card_below [of n "\<lambda>k. \<not> Dx ! i ! k \<le> Dx ! i ! j \<and> \<not> Dy ! i ! k \<le> Dy ! i ! j"]
  by (auto simp: spec_counts_def)

lemma wrap64_abs: "\<bar>x\<bar> \<le> 2 ^ 62 \<Longrightarrow> wrap64 x = x"
  by (rule wrap64_id) auto

lemma abs_mult_le:
  fixes a b :: int
  assumes "\<bar>a\<bar> \<le> A" "\<bar>b\<bar> \<le> B"
  shows "\<bar>a * b\<bar> \<le> A * B"
proof -
  have "\<bar>a\<bar> * \<bar>b\<bar> \<le> A * B"
    using assms by (intro mult_mono) auto
  then show ?thesis by (simp add: abs_mult)
qed

lemma products_exact:
  fixes t11 t12 t21 t22 m :: int
  assumes "\<bar>t11\<bar> \<le> 4096" "\<bar>t12\<bar> \<le> 4096" "\<bar>t21\<bar> \<le> 4096" "\<bar>t22\<bar> \<le> 4096" "\<bar>m\<bar> \<le> 4096"
  shows "denom_of (t11, t12, t21, t22) = (t11 + t12) * (t21 + t22) * (t11 + t21) * (t12 + t22)"
    and "wrap64 (m * wrap64 ((wrap64 (wrap64 (t12 * t21) - wrap64 (t11 * t22))) ^ 2)) =
           m * (t12 * t21 - t11 * t22) ^ 2"
proof -
  have s: "\<bar>t11 + t12\<bar> \<le> 8192" "\<bar>t21 + t22\<bar> \<le> 8192" "\<bar>t11 + t21\<bar> \<le> 8192" "\<bar>t12 + t22\<bar> \<le> 8192"
    using assms by linarith+
  have p2: "\<bar>(t11 + t12) * (t21 + t22)\<bar> \<le> 8192 * 8192"
    by (rule abs_mult_le [OF s(1,2)])
  have p3: "\<bar>(t11 + t12) * (t21 + t22) * (t11 + t21)\<bar> \<le> 8192 * 8192 * 8192"
    by (rule abs_mult_le [OF p2 s(3)])
  have p4: "\<bar>(t11 + t12) * (t21 + t22) * (t11 + t21) * (t12 + t22)\<bar> \<le> 8192 * 8192 * 8192 * 8192"
    by (rule abs_mult_le [OF p3 s(4)])
  have w: "wrap64 (t11 + t12) = t11 + t12" "wrap64 (t21 + t22) = t21 + t22"
      "wrap64 (t11 + t21) = t11 + t21" "wrap64 (t12 + t22) = t12 + t22"
    using s by (auto intro!: wrap64_abs)
  have w2: "wrap64 ((t11 + t12) * (t21 + t22)) = (t11 + t12) * (t21 + t22)"
    using p2 by (intro wrap64_abs) simp
  have w3: "wrap64 ((t11 + t12) * (t21 + t22) * (t11 + t21)) = (t11 + t12) * (t21 + t22) * (t11 + t21)"
    using p3 by (intro wrap64_abs) simp
  have w4: "wrap64 ((t11 + t12) * (t21 + t22) * (t11 + t21) * (t12 + t22)) =
      (t11 + t12) * (t21 + t22) * (t11 + t21) * (t12 + t22)"
    using p4 by (intro wrap64_abs) simp
  show "denom_of (t11, t12, t21, t22) = (t11 + t12) * (t21 + t22) * (t11 + t21) * (t12 + t22)"
    by (simp add: denom_of_def w w2 w3 w4)
  have a: "\<bar>t12 * t21\<bar> \<le> 4096 * 4096" "\<bar>t11 * t22\<bar> \<le> 4096 * 4096"
    by (rule abs_mult_le [OF assms(2,3)], rule abs_mult_le [OF assms(1,4)])
  then have d: "\<bar>t12 * t21 - t11 * t22\<bar> \<le> 33554432" by linarith
  have q: "\<bar>(t12 * t21 - t11 * t22) ^ 2\<bar> \<le> 33554432 * 33554432"
    unfolding power2_eq_square by (rule abs_mult_le [OF d d])
  have r: "\<bar>m * (t12 * t21 - t11 * t22) ^ 2\<bar> \<le> 4096 * (33554432 * 33554432)"
    by (rule abs_mult_le [OF assms(5) q])
  have v: "wrap64 (t12 * t21) = t12 * t21" "wrap64 (t11 * t22) = t11 * t22"
    using a by (auto intro!: wrap64_abs)
  have v2: "wrap64 (t12 * t21 - t11 * t22) = t12 * t21 - t11 * t22"
    using d by (intro wrap64_abs) simp
  have v3: "wrap64 ((t12 * t21 - t11 * t22) ^ 2) = (t12 * t21 - t11 * t22) ^ 2"
    using q by (intro wrap64_abs) simp
  have v4: "wrap64 (m * (t12 * t21 - t11 * t22) ^ 2) = m * (t12 * t21 - t11 * t22) ^ 2"
    using r by (intro wrap64_abs) simp
  show "wrap64 (m * wrap64 ((wrap64 (wrap64 (t12 * t21) - wrap64 (t11 * t22))) ^ 2)) =
           m * (t12 * t21 - t11 * t22) ^ 2"
    by (simp add: v v2 v3 v4)
qed

lemma counts_exact:
  assumes "n \<le> 4096" "spec_counts Dx Dy n i j = (t11, t12, t21, t22)"
  shows "denom_of (t11, t12, t21, t22) = (t11 + t12) * (t21 + t22) * (t11 + t21) * (t12 + t22)"
    and "term_of n (t11, t12, t21, t22) =
           real_of_int ((int n - 2) * (t12 * t21 - t11 * t22) ^ 2) /
           real_of_int ((t11 + t12) * (t21 + t22) * (t11 + t21) * (t12 + t22))"
proof -
  have b: "\<bar>t11\<bar> \<le> 4096" "\<bar>t12\<bar> \<le> 4096" "\<bar>t21\<bar> \<le> 4096" "\<bar>t22\<bar> \<le> 4096" "\<bar>int n - 2\<bar> \<le> 4096"
    using spec_counts_bounds [OF assms(2)] assms(1) by linarith+
  show d: "denom_of (t11, t12, t21, t22) = (t11 + t12) * (t21 + t22) * (t11 + t21) * (t12 + t22)"
    by (rule products_exact(1) [OF b])
  show "term_of n (t11, t12, t21, t22) =
           real_of_int ((int n - 2) * (t12 * t21 - t11 * t22) ^ 2) /
           real_of_int ((t11 + t12) * (t21 + t22) * (t11 + t21) * (t12 + t22))"
    unfolding term_of_def prod.case d products_exact(2) [OF b] ..
qed

lemma spec_contribution_cell:
  assumes "n \<le> 4096" "i \<noteq> j"
  shows "spec_contribution Dx Dy n i j = cell Dx Dy n i j"
proof -
  obtain t11 t12 t21 t22 where t: "spec_counts Dx Dy n i j = (t11, t12, t21, t22)"
    by (cases "spec_counts Dx Dy n i j") auto
  show ?thesis
    using assms(2)
    by (simp add: spec_contribution_def cell_def assigned_def t counts_exact [OF assms(1) t] Let_def)
qed

lemma cell_diag: "cell Dx Dy n i i = 0"
  by (simp add: cell_def assigned_def)

lemma spec_statistic_cell:
  assumes "n \<le> 4096"
  shows "spec_statistic Dx Dy n = (\<Sum>r<n. \<Sum>c<n. cell Dx Dy n r c)"
proof -
  have "(\<Sum>c<n. cell Dx Dy n r c) = (\<Sum>c \<in> {..<n} - {r}. spec_contribution Dx Dy n r c)" for r
  proof -
    have "(\<Sum>c<n. cell Dx Dy n r c) = (\<Sum>c \<in> {..<n} - {r}. cell Dx Dy n r c)"
      by (rule sum.mono_neutral_right) (auto simp: cell_diag)
    also have "\<dots> = (\<Sum>c \<in> {..<n} - {r}. spec_contribution Dx Dy n r c)"
      by (rule sum.cong) (auto simp: spec_contribution_cell [OF assms])
    finally show ?thesis .
  qed
  then show ?thesis by (simp add: spec_statistic_def)
qed

lemma cell_nonneg:
  assumes "n \<le> 4096" "r < n" "c < n"
  shows "0 \<le> cell Dx Dy n r c"
proof (cases "assigned Dx Dy n r c")
  case False
  then show ?thesis by (simp add: cell_def)
next
  case True
  obtain t11 t12 t21 t22 where t: "spec_counts Dx Dy n r c = (t11, t12, t21, t22)"
    by (cases "spec_counts Dx Dy n r c") auto
  note ex = counts_exact [OF assms(1) t]
  have d: "0 < (t11 + t12) * (t21 + t22) * (t11 + t21) * (t12 + t22)" and ne: "r \<noteq> c"
    using True t ex(1) by (simp_all add: assigned_def)
  have "0 \<le> int n - 2" using assms ne by linarith
  then have "0 \<le> (int n - 2) * (t12 * t21 - t11 * t22) ^ 2"
    by simp
  then have "0 \<le> real_of_int ((int n - 2) * (t12 * t21 - t11 * t22) ^ 2)"
    by (simp only: of_int_0_le_iff)
  moreover have "0 < real_of_int ((t11 + t12) * (t21 + t22) * (t11 + t21) * (t12 + t22))"
    using d by (simp only: of_int_0_less_iff)
  ultimately have "0 \<le> real_of_int ((int n - 2) * (t12 * t21 - t11 * t22) ^ 2) /
      real_of_int ((t11 + t12) * (t21 + t22) * (t11 + t21) * (t12 + t22))"
    by (rule divide_nonneg_pos)
  then show ?thesis using True t ex(2) by (simp add: cell_def)
qed

lemma cell_two: "cell Dx Dy 2 r c = 0"
  by (simp add: cell_def term_of_def wrap64_zero split: prod.splits)

subsection \<open>The method on rectangular inputs\<close>

lemma distance_matrix_square: "is_square (length M) (distance_matrix M M)"
  by (auto simp: is_square_def distance_matrix_def)

lemma dist_mtx_square:
  assumes "rectangular M"
  shows "is_square (length M) (dist_mtx M)"
proof (cases "shape0 M \<noteq> shape1 M \<or> float_sq_sum (diagonal M) > 0")
  case True
  then show ?thesis by (simp add: dist_mtx_def distance_matrix_square)
next
  case False
  then have "dist_mtx M = M" "shape1 M = length M"
    by (simp_all add: dist_mtx_def shape0_def)
  with assms show ?thesis by (simp add: is_square_def rectangular_def)
qed

lemma test_statistic_rectangular:
  assumes "rectangular X" "rectangular Y" "length X = n" "length Y = n"
  shows "test_statistic self X Y =
           (Inr (\<Sum>r<n. \<Sum>c<n. cell (dist_mtx X) (dist_mtx Y) n r c, Map.empty),
            self\<lparr>attr_test_statistic_metadata := Some Map.empty,
                 attr_test_statistic := Some (\<Sum>r<n. \<Sum>c<n. cell (dist_mtx X) (dist_mtx Y) n r c)\<rparr>)"
proof -
  have "is_square n (dist_mtx X)" "is_square n (dist_mtx Y)"
    using dist_mtx_square [OF assms(1)] dist_mtx_square [OF assms(2)] assms(3,4) by simp_all
  then show ?thesis
    by (simp add: test_statistic_def corr_of_square)
qed

subsection \<open>The choice between a matrix and the distances of its rows\<close>








subsection \<open>Inputs with different numbers of rows\<close>

lemma corr_of_mismatch:
  assumes "is_square n dx" "is_square m dy" "2 \<le> n" "m \<noteq> n"
  shows "corr_of dx dy = Inl (if m < 2 then IndexError else ValueError)"
proof -
  have n: "[0..<n] = 0 # 1 # [2..<n]"
    using assms(3) by (simp add: upt_conv_Cons numeral_2_eq_2)
  have lx: "length dx = n" "length (dx ! 0) = n"
    using assms(1,3) by (simp_all add: is_square_length is_square_nth)
  have c: "contingency dx dy 0 (Suc 0) = Inl (if m < 2 then IndexError else ValueError)"
  proof (cases "m < 2")
    case True
    have "\<not> (0 < length dy \<and> 1 < length (dy ! 0))"
      using True assms(2) is_square_nth [OF assms(2), of 0] by (auto simp: is_square_length)
    then show ?thesis
      using True assms(3) by (simp add: contingency_def shape0_def lx)
  next
    case False
    then have ly: "length dy = m" "length (dy ! 0) = m"
      using assms(2) by (simp_all add: is_square_length is_square_nth)
    show ?thesis
      using False assms(3,4) by (simp add: contingency_def shape0_def lx ly np_mul_def Let_def)
  qed
  show ?thesis
    by (simp add: corr_of_def shape0_def lx n pair_update_def c)
qed

lemma test_statistic_mismatch:
  assumes "rectangular X" "rectangular Y" "2 \<le> length X" "length Y \<noteq> length X"
  shows "test_statistic self X Y =
           (Inl (if length Y < 2 then IndexError else ValueError), self)"
  using corr_of_mismatch [OF dist_mtx_square [OF assms(1)] dist_mtx_square [OF assms(2)] assms(3,4)]
  by (simp add: test_statistic_def)

subsection \<open>Calls without arguments\<close>

lemma call_without_arguments: "call_test_statistic self None None = (Inl TypeError, self)"
  by (simp add: call_test_statistic_def)

subsection \<open>Rows taken in another order\<close>





subsection \<open>A product that wraps\<close>

lemma overflow_square: "is_square 11002 overflow_Dx" "is_square 11002 overflow_Dy"
  by (auto simp: is_square_def overflow_Dx_def overflow_Dy_def)

lemma overflow_nth:
  assumes "i < 11002" "j < 11002"
  shows "overflow_Dx ! i ! j = overflow_dx i j" "overflow_Dy ! i ! j = overflow_dy i j"
  using assms by (simp_all add: overflow_Dx_def overflow_Dy_def)

lemma overflow_distance_matrix:
  "is_distance_matrix 11002 overflow_Dx" "is_distance_matrix 11002 overflow_Dy"
  by (auto simp: is_distance_matrix_def overflow_square zero_diagonal_def symmetric_def
        overflow_nth overflow_dx_def overflow_dy_def)

lemma overflow_counts:
  assumes "i < 11002" "j < 11002"
  shows "spec_counts overflow_Dx overflow_Dy 11002 i j =
     (int (card {k. k < 11002 \<and> overflow_dx i k \<le> overflow_dx i j \<and> overflow_dy i k \<le> overflow_dy i j}) - 2,
      int (card {k. k < 11002 \<and> overflow_dx i k \<le> overflow_dx i j \<and> \<not> overflow_dy i k \<le> overflow_dy i j}),
      int (card {k. k < 11002 \<and> \<not> overflow_dx i k \<le> overflow_dx i j \<and> overflow_dy i k \<le> overflow_dy i j}),
      int (card {k. k < 11002 \<and> \<not> overflow_dx i k \<le> overflow_dx i j \<and> \<not> overflow_dy i k \<le> overflow_dy i j}))"
proof -
  have "{k. k < 11002 \<and> P (overflow_Dx ! i ! k) (overflow_Dy ! i ! k)} =
        {k. k < 11002 \<and> P (overflow_dx i k) (overflow_dy i k)}" for P
    using assms by (auto simp: overflow_nth)
  note this [of "\<lambda>a b. a \<le> overflow_dx i j \<and> b \<le> overflow_dy i j"]
    this [of "\<lambda>a b. a \<le> overflow_dx i j \<and> \<not> b \<le> overflow_dy i j"]
    this [of "\<lambda>a b. \<not> a \<le> overflow_dx i j \<and> b \<le> overflow_dy i j"]
    this [of "\<lambda>a b. \<not> a \<le> overflow_dx i j \<and> \<not> b \<le> overflow_dy i j"]
  then show ?thesis
    using assms by (simp add: spec_counts_def overflow_nth)
qed

lemma overflow_le_two: "overflow_dx i k \<le> 2" "overflow_dy i k \<le> 2"
  by (simp_all add: overflow_dx_def overflow_dy_def)

lemma denom_zero_second: "denom_of (t11, t12, 0, 0) = 0"
  by (simp add: denom_of_def wrap64_zero)

lemma denom_zero_fourth: "denom_of (t11, 0, t21, 0) = 0"
  by (simp add: denom_of_def wrap64_zero)

lemma denom_zero_first: "denom_of (0, 0, t21, t22) = 0"
  by (simp add: denom_of_def wrap64_zero)

lemma overflow_cell_far_x:
  assumes "i < 11002" "j < 11002" "overflow_dx i j = 2"
  shows "cell overflow_Dx overflow_Dy 11002 i j = 0"
  by (simp add: cell_def assigned_def overflow_counts [OF assms(1,2)] assms(3) overflow_le_two
        denom_zero_second)

lemma overflow_cell_far_y:
  assumes "i < 11002" "j < 11002" "overflow_dy i j = 2"
  shows "cell overflow_Dx overflow_Dy 11002 i j = 0"
  by (simp add: cell_def assigned_def overflow_counts [OF assms(1,2)] assms(3) overflow_le_two
        denom_zero_fourth)

lemma overflow_cell_back: "cell overflow_Dx overflow_Dy 11002 5501 0 = 0"
proof -
  have a: "{k. k < 11002 \<and> overflow_dx 5501 k \<le> overflow_dx 5501 0 \<and>
             overflow_dy 5501 k \<le> overflow_dy 5501 0} = {0, 5501}"
    by (auto simp: overflow_dx_def overflow_dy_def split: if_splits)
  have b: "{k. k < 11002 \<and> overflow_dx 5501 k \<le> overflow_dx 5501 0 \<and>
             \<not> overflow_dy 5501 k \<le> overflow_dy 5501 0} = {}"
    by (auto simp: overflow_dx_def overflow_dy_def split: if_splits)
  show ?thesis
    by (simp add: cell_def assigned_def overflow_counts a b denom_zero_first)
qed

lemma overflow_counts_first:
  "spec_counts overflow_Dx overflow_Dy 11002 0 5501 = (0, 5500, 5500, 0)"
proof -
  have a: "{k. k < 11002 \<and> overflow_dx 0 k \<le> overflow_dx 0 5501 \<and>
             overflow_dy 0 k \<le> overflow_dy 0 5501} = {0, 5501}"
    by (auto simp: overflow_dx_def overflow_dy_def split: if_splits)
  have b: "{k. k < 11002 \<and> overflow_dx 0 k \<le> overflow_dx 0 5501 \<and>
             \<not> overflow_dy 0 k \<le> overflow_dy 0 5501} = {1..5500}"
    by (auto simp: overflow_dx_def overflow_dy_def split: if_splits)
  have c: "{k. k < 11002 \<and> \<not> overflow_dx 0 k \<le> overflow_dx 0 5501 \<and>
             overflow_dy 0 k \<le> overflow_dy 0 5501} = {5502..<11002}"
    by (auto simp: overflow_dx_def overflow_dy_def split: if_splits)
  have d: "{k. k < 11002 \<and> \<not> overflow_dx 0 k \<le> overflow_dx 0 5501 \<and>
             \<not> overflow_dy 0 k \<le> overflow_dy 0 5501} = {}"
    by (auto simp: overflow_dx_def overflow_dy_def split: if_splits)
  show ?thesis
    by (simp add: overflow_counts a b c d)
qed

lemma overflow_term:
  "denom_of (0, 5500, 5500, 0) = 915062500000000"
  "term_of 11002 (0, 5500, 5500, 0) = - 8381056573709551616 / 915062500000000"
  by code_simp+

lemma overflow_cell_first:
  "cell overflow_Dx overflow_Dy 11002 0 5501 = - 8381056573709551616 / 915062500000000"
  by (simp add: cell_def assigned_def overflow_counts_first overflow_term)

lemma overflow_cell:
  assumes "r < 11002" "c < 11002"
  shows "cell overflow_Dx overflow_Dy 11002 r c =
           (if r = 0 \<and> c = 5501 then - 8381056573709551616 / 915062500000000 else 0)"
proof -
  have "overflow_dx r c = 2 \<or> overflow_dy r c = 2"
    if "r \<noteq> c" "\<not> (r = 0 \<and> c = 5501)" "\<not> (r = 5501 \<and> c = 0)"
    using that by (auto simp: overflow_dx_def overflow_dy_def split: if_splits)
  then consider "r = c" | "r = 0 \<and> c = 5501" | "r = 5501 \<and> c = 0"
    | "r \<noteq> c \<and> overflow_dx r c = 2" | "r \<noteq> c \<and> overflow_dy r c = 2"
    by blast
  then show ?thesis
  proof cases
    case 1
    then show ?thesis by (auto simp: cell_diag)
  next
    case 2
    then show ?thesis by (simp add: overflow_cell_first)
  next
    case 3
    then show ?thesis by (simp add: overflow_cell_back)
  next
    case 4
    then have "cell overflow_Dx overflow_Dy 11002 r c = 0"
      using overflow_cell_far_x [OF assms] by simp
    moreover have "\<not> (r = 0 \<and> c = 5501)"
      using 4 by (auto simp: overflow_dx_def)
    ultimately show ?thesis by simp
  next
    case 5
    then have "cell overflow_Dx overflow_Dy 11002 r c = 0"
      using overflow_cell_far_y [OF assms] by simp
    moreover have "\<not> (r = 0 \<and> c = 5501)"
      using 5 by (auto simp: overflow_dy_def)
    ultimately show ?thesis by simp
  qed
qed

lemma overflow_corr:
  "corr_of overflow_Dx overflow_Dy = Inr (- 8381056573709551616 / 915062500000000)"
proof -
  have "(\<Sum>r<11002. \<Sum>c<11002. cell overflow_Dx overflow_Dy 11002 r c) =
        (\<Sum>r<(11002::nat). \<Sum>c<(11002::nat).
           if r = 0 \<and> c = 5501 then - 8381056573709551616 / 915062500000000 else (0::real))"
    by (intro sum.cong refl) (simp add: overflow_cell)
  also have "\<dots> = (\<Sum>r<(11002::nat). if r = 0 then - 8381056573709551616 / 915062500000000 else (0::real))"
    by (intro sum.cong refl) (simp add: sum.delta)
  also have "\<dots> = - 8381056573709551616 / 915062500000000"
    by (simp add: sum.delta)
  finally show ?thesis
    by (simp add: corr_of_square [OF overflow_square])
qed


lemma overflow_zero_diagonal:
  "zero_diagonal 11002 overflow_Dx" "zero_diagonal 11002 overflow_Dy"
  using overflow_distance_matrix by (simp_all add: is_distance_matrix_def)

lemma overflow_statistic:
  "fst (test_statistic self overflow_Dx overflow_Dy) =
     Inr (- 8381056573709551616 / 915062500000000, Map.empty)"
  by (simp add: test_statistic_def overflow_corr
        dist_mtx_pass [OF overflow_square(1) overflow_zero_diagonal(1)]
        dist_mtx_pass [OF overflow_square(2) overflow_zero_diagonal(2)])

lemma overflow_spec_contribution:
  assumes "i < 11002" "j < 11002" "i \<noteq> j"
  shows "spec_contribution overflow_Dx overflow_Dy 11002 i j =
           (if i = 0 \<and> j = 5501 then 11000 else 0)"
proof -
  have far: "overflow_dx i j = 2 \<or> overflow_dy i j = 2"
    if "\<not> (i = 0 \<and> j = 5501)" "\<not> (i = 5501 \<and> j = 0)"
    using that assms(3) by (auto simp: overflow_dx_def overflow_dy_def split: if_splits)
  consider "i = 0 \<and> j = 5501" | "i = 5501 \<and> j = 0"
    | "\<not> (i = 0 \<and> j = 5501) \<and> overflow_dx i j = 2"
    | "\<not> (i = 0 \<and> j = 5501) \<and> overflow_dy i j = 2"
    using far by blast
  then show ?thesis
  proof cases
    case 1
    then show ?thesis
      by (simp add: spec_contribution_def overflow_counts_first)
  next
    case 2
    have a: "{k. k < 11002 \<and> overflow_dx 5501 k \<le> overflow_dx 5501 0 \<and>
             overflow_dy 5501 k \<le> overflow_dy 5501 0} = {0, 5501}"
      by (auto simp: overflow_dx_def overflow_dy_def split: if_splits)
    have b: "{k. k < 11002 \<and> overflow_dx 5501 k \<le> overflow_dx 5501 0 \<and>
             \<not> overflow_dy 5501 k \<le> overflow_dy 5501 0} = {}"
      by (auto simp: overflow_dx_def overflow_dy_def split: if_splits)
    show ?thesis
      using 2 by (simp add: spec_contribution_def overflow_counts a b)
  next
    case 3
    then show ?thesis
      by (simp add: spec_contribution_def overflow_counts [OF assms(1,2)] overflow_le_two)
  next
    case 4
    then show ?thesis
      by (simp add: spec_contribution_def overflow_counts [OF assms(1,2)] overflow_le_two)
  qed
qed

lemma overflow_spec_statistic: "spec_statistic overflow_Dx overflow_Dy 11002 = 11000"
proof -
  have "spec_statistic overflow_Dx overflow_Dy 11002 =
        (\<Sum>i<(11002::nat). \<Sum>j \<in> {..<(11002::nat)} - {i}.
           if i = 0 \<and> j = 5501 then 11000 else (0::real))"
    unfolding spec_statistic_def
    by (intro sum.cong refl) (auto simp: overflow_spec_contribution)
  also have "\<dots> = (\<Sum>i<(11002::nat). if i = 0 then 11000 else (0::real))"
    by (intro sum.cong refl) (simp add: sum.delta)
  also have "\<dots> = 11000"
    by (simp add: sum.delta)
  finally show ?thesis .
qed

section \<open>The claims\<close>

text \<open>
  C1. The claim: for \<open>n\<close>-by-\<open>n\<close> distance matrices and every \<open>n\<close>, the statistic returned
  is the sum over all ordered pairs \<open>i \<noteq> j\<close> of \<open>(n - 2) (t12 t21 - t11 t22)\<^sup>2 / denom\<close>
  when \<open>denom = (t11 + t12) (t21 + t22) (t11 + t21) (t12 + t22)\<close> is positive and of zero
  otherwise. For the two distance matrices of 11002 points above, the only pair with a
  positive denominator is \<open>(0, 5501)\<close>, with the counts \<open>(0, 5500, 5500, 0)\<close>; the sum
  of the contributions is \<open>11000\<close>, but the product \<open>11000 * (5500 * 5500)\<^sup>2\<close> of line 79
  is above \<open>2 ^ 63\<close> and wraps around in \<^verbatim>\<open>int64\<close>, and the statistic returned is
  negative. (For \<open>n\<close> up to 4096 no product wraps and the statistic is the sum: X5.)
\<close>

theorem overflow_statistic_not_the_sum:
  "fst (test_statistic unset overflow_Dx overflow_Dy) =
     Inr (- 8381056573709551616 / 915062500000000, Map.empty) \<and>
   spec_statistic overflow_Dx overflow_Dy 11002 = 11000 \<and>
   fst (test_statistic unset overflow_Dx overflow_Dy) \<noteq>
     Inr (spec_statistic overflow_Dx overflow_Dy 11002, Map.empty)"
  by (simp add: overflow_statistic overflow_spec_statistic)

text \<open>
  C5. The claim: for every valid pair of inputs the statistic returned is not negative.
  For the same two distance matrices of 11002 points the statistic returned is negative,
  by the same wrapped product. (For up to 4096 rows it is not negative: X6.)
\<close>

theorem overflow_statistic_negative:
  "\<exists>v. fst (test_statistic unset overflow_Dx overflow_Dy) = Inr (v, Map.empty) \<and> v < 0"
  by (simp add: overflow_statistic)

text \<open>
  C6. For \<open>n\<close>-by-\<open>n\<close> distance matrices and every ordered pair \<open>i \<noteq> j\<close>, the four counts
  \<open>t11\<close>, \<open>t12\<close>, \<open>t21\<close>, \<open>t22\<close> that lines 73--76 compute are nonnegative integers and
  their sum is \<open>n - 2\<close>.
\<close>

theorem contingency_counts_nonneg_sum:
  assumes "is_distance_matrix n Dx" "is_distance_matrix n Dy" "i < n" "j < n" "i \<noteq> j"
  shows "\<exists>t11 t12 t21 t22. contingency Dx Dy i j = Inr (t11, t12, t21, t22) \<and>
           0 \<le> t11 \<and> 0 \<le> t12 \<and> 0 \<le> t21 \<and> 0 \<le> t22 \<and> t11 + t12 + t21 + t22 = int n - 2"
proof -
  obtain t11 t12 t21 t22 where t: "spec_counts Dx Dy n i j = (t11, t12, t21, t22)"
    by (cases "spec_counts Dx Dy n i j") auto
  have sq: "is_square n Dx" "is_square n Dy"
    using assms(1,2) by (simp_all add: is_distance_matrix_def)
  have c: "contingency Dx Dy i j = Inr (t11, t12, t21, t22)"
    using contingency_square [OF sq assms(3,4)] t by simp
  have "Dx ! i ! i \<le> Dx ! i ! j" "Dy ! i ! i \<le> Dy ! i ! j"
    using assms(1-4) by (simp_all add: is_distance_matrix_def zero_diagonal_def)
  from spec_counts_t11_nonneg [OF assms(3,4,5) this] t have "0 \<le> t11" by simp
  moreover have "0 \<le> t12" "0 \<le> t21" "0 \<le> t22"
    using t by (auto simp: spec_counts_def)
  moreover have "t11 + t12 + t21 + t22 = int n - 2"
    using spec_counts_sum [of Dx Dy n i j] t by simp
  ultimately show ?thesis using c by blast
qed

theorem contingency_counts_nonneg_sum_witness:
  "is_distance_matrix 4 example_Dx \<and> is_distance_matrix 4 example_Dy \<and>
   contingency example_Dx example_Dy 0 2 = Inr (0, 1, 0, 1) \<and> (0::int) + 1 + 0 + 1 = int 4 - 2"
proof -
  have x: "is_distance_matrix 4 example_Dx" by code_simp
  have y: "is_distance_matrix 4 example_Dy" by code_simp
  have c: "contingency example_Dx example_Dy 0 2 = Inr (0, 1, 0, 1)" by code_simp
  from contingency_counts_nonneg_sum [OF x y, of 0 2] c x y show ?thesis by simp
qed

text \<open>
  C7. For inputs of exactly two observations each, whatever their values,
  \<open>test_statistic\<close> raises nothing and returns the statistic \<open>0\<close> with the empty
  metadata.
\<close>

theorem statistic_two_observations:
  assumes "rectangular X" "rectangular Y" "length X = 2" "length Y = 2"
  shows "test_statistic self X Y =
           (Inr (0, Map.empty),
            self\<lparr>attr_test_statistic_metadata := Some Map.empty, attr_test_statistic := Some 0\<rparr>)"
  using test_statistic_rectangular [OF assms, of self] by (simp add: cell_two)

theorem statistic_two_observations_witness:
  "rectangular [[1, 5, 2], [- 3, 0, 7]] \<and> rectangular [[4], [9]] \<and>
   fst (test_statistic unset [[1, 5, 2], [- 3, 0, 7]] [[4], [9]]) = Inr (0, Map.empty)"
proof -
  have r: "rectangular [[1, 5, 2], [- 3, 0, 7]]" "rectangular [[4], [9]]" by code_simp+
  from statistic_two_observations [OF r, of unset] r show ?thesis by simp
qed




text \<open>
  C2. The claim: every call of \<open>p_value\<close> derives its observed statistic and its null
  distribution from the matrices it is passed, whatever an earlier call stored in the
  object. The method reads neither parameter: line 120 calls \<^verbatim>\<open>self.test_statistic()\<close>
  with no argument, and the call ends there. The outcome is the same for all arguments,
  all objects and all replication factors.
\<close>

theorem p_value_outcome_same_for_all_arguments:
  "fst (p_value draw self rng ax ay R) = fst (p_value draw' self' rng' bx by R')"
  by (simp add: p_value_def call_without_arguments)

text \<open>
  C4. The claim: for valid inputs and a positive replication factor \<open>R\<close>, the p-value
  returned is the number of replications whose statistic is at least the observed one,
  divided by \<open>R\<close>. On the example of the method's own docstring, with \<open>R = 1000\<close>, the
  call returns no p-value: it ends with \<^verbatim>\<open>TypeError\<close> at line 120 and leaves the object
  as it was.
\<close>

theorem p_value_docstring_example:
  "p_value draw_reverse unset () (Some docstring_X) (Some docstring_Y) 1000 =
     (Inl TypeError, unset, ())"
  by (simp add: p_value_def call_without_arguments)

text \<open>
  C9. The claim: with a seeded random-number source, two runs on the same inputs produce
  the same null distribution and the same p-value. A run draws no permutation at all:
  it ends with \<^verbatim>\<open>TypeError\<close> before the loop, with the generator in the state it
  started from, and produces neither a null distribution nor a p-value.
\<close>

theorem p_value_draws_no_permutation:
  "p_value draw self rng (Some X) (Some Y) R = (Inl TypeError, self, rng)"
  by (simp add: p_value_def call_without_arguments)

text \<open>
  C8. The claim: \<open>p_value\<close> signals \<open>DimensionMismatchError\<close> when the two samples differ
  in their number of rows, and \<open>InvalidInputError\<close> when the replication factor is not
  positive. It signals neither, on samples of two and three rows and on a replication
  factor of zero.
\<close>

theorem validation_counterexample:
  "fst (p_value draw_reverse unset () (Some [[0], [1]]) (Some [[0], [1], [2]]) 1000) = Inl TypeError \<and>
   fst (p_value draw_reverse unset () (Some [[0], [1]]) (Some [[0], [1], [2]]) 1000)
     \<noteq> Inl DimensionMismatchError \<and>
   fst (p_value draw_reverse unset () (Some [[0], [1]]) (Some [[2], [3]]) 0) = Inl TypeError \<and>
   fst (p_value draw_reverse unset () (Some [[0], [1]]) (Some [[2], [3]]) 0)
     \<noteq> Inl InvalidInputError"
  by (simp add: p_value_def call_without_arguments)

text \<open>
  C8, as amended. The source has no check of the row counts or of the replication
  factor: for all arguments and every replication factor, \<open>p_value\<close> signals neither
  \<open>DimensionMismatchError\<close> nor \<open>InvalidInputError\<close>, and it leaves the \<^verbatim>\<open>p_value_\<close> and
  \<^verbatim>\<open>p_value_metadata_\<close> attributes as they were. Samples with different numbers of rows
  (the first with at least two) are noticed only inside the loops of \<open>test_statistic\<close>,
  which ends with numpy's \<^verbatim>\<open>IndexError\<close> when the second sample has fewer than two rows
  and with \<^verbatim>\<open>ValueError\<close> otherwise, and leaves the object unchanged.
\<close>

theorem no_validation_errors:
  "fst (p_value draw self rng arg_X arg_Y R) \<noteq> Inl DimensionMismatchError \<and>
   fst (p_value draw self rng arg_X arg_Y R) \<noteq> Inl InvalidInputError \<and>
   attr_p_value (fst (snd (p_value draw self rng arg_X arg_Y R))) = attr_p_value self \<and>
   attr_p_value_metadata (fst (snd (p_value draw self rng arg_X arg_Y R))) =
     attr_p_value_metadata self \<and>
   (rectangular X \<and> rectangular Y \<and> 2 \<le> length X \<and> length Y \<noteq> length X \<longrightarrow>
      test_statistic self X Y =
        (Inl (if length Y < 2 then IndexError else ValueError), self))"
  using test_statistic_mismatch [of X Y self]
  by (simp add: p_value_def call_without_arguments)

theorem no_validation_errors_witness:
  "rectangular [[0], [1]] \<and> rectangular [[0], [1], [2]] \<and> rectangular [[5]] \<and>
   test_statistic unset [[0], [1]] [[0], [1], [2]] = (Inl ValueError, unset) \<and>
   test_statistic unset [[0], [1]] [[5]] = (Inl IndexError, unset) \<and>
   fst (p_value draw_reverse unset () (Some [[0], [1]]) (Some [[0], [1], [2]]) 1000)
     \<noteq> Inl DimensionMismatchError \<and>
   fst (p_value draw_reverse unset () (Some [[0], [1]]) (Some [[2], [3]]) 0)
     \<noteq> Inl InvalidInputError"
proof -
  have r: "rectangular [[0], [1]]" "rectangular [[0], [1], [2]]" "rectangular [[5]]"
    by code_simp+
  from no_validation_errors
         [of draw_reverse unset "()" "Some [[0], [1]]" "Some [[0], [1], [2]]" 1000
             "[[0], [1]]" "[[0], [1], [2]]"]
    no_validation_errors
         [of draw_reverse unset "()" "Some [[0], [1]]" "Some [[2], [3]]" 0 "[[0], [1]]" "[[5]]"]
    r
  show ?thesis by simp
qed




section \<open>Further properties of the source\<close>

text \<open>
  X1. A square matrix with zero diagonal and a negative entry off the diagonal is kept
  as a distance matrix by lines 56--63, and the first count of lines 73--76 is then
  negative: the point \<open>i\<close> itself is not within the distance of \<open>j\<close>.
\<close>

theorem counts_negative_entries:
  "dist_mtx [[0, - 1], [- 1, 0]] = [[0, - 1], [- 1, 0]] \<and>
   contingency [[0, - 1], [- 1, 0]] [[0, - 1], [- 1, 0]] 0 1 = Inr (- 1, 0, 0, 1)"
proof -
  have z: "is_square 2 [[0, - 1], [- 1, 0]]" "zero_diagonal 2 [[0, - 1], [- 1, 0]]"
    by code_simp+
  have c: "contingency [[0, - 1], [- 1, 0]] [[0, - 1], [- 1, 0]] 0 1 = Inr (- 1, 0, 0, 1)"
    by code_simp
  from dist_mtx_pass [OF z] c show ?thesis by simp
qed

text \<open>
  X2. \<open>test_statistic\<close> writes the attributes \<^verbatim>\<open>test_statistic_\<close> and
  \<^verbatim>\<open>test_statistic_metadata_\<close> only: \<^verbatim>\<open>self.matrix_X\<close>, \<^verbatim>\<open>self.matrix_Y\<close> and
  \<^verbatim>\<open>self.p_value_\<close> are as before the call.
\<close>

theorem test_statistic_keeps_matrix_attributes:
  "attr_matrix_X (snd (test_statistic self X Y)) = attr_matrix_X self \<and>
   attr_matrix_Y (snd (test_statistic self X Y)) = attr_matrix_Y self \<and>
   attr_p_value (snd (test_statistic self X Y)) = attr_p_value self"
  by (simp add: test_statistic_def split: sum.splits)

text \<open>
  X3. On an object that had no attribute set and on which only \<open>test_statistic\<close> was
  called, a replication ends with \<^verbatim>\<open>AttributeError\<close>: nothing has stored
  \<^verbatim>\<open>self.matrix_Y\<close>.
\<close>

theorem replication_after_statistic_only:
  "fst (replication draw (snd (test_statistic unset X Y)) rng) = Inl AttributeError"
  by (simp add: replication_def test_statistic_def unset_def split: sum.splits)

text \<open>
  X4. For rectangular inputs with different numbers of rows, the first with at least
  two, \<open>test_statistic\<close> ends with \<^verbatim>\<open>IndexError\<close> when the second has fewer than two
  rows and with \<^verbatim>\<open>ValueError\<close> otherwise, and the object is unchanged.
\<close>

theorem statistic_row_mismatch:
  assumes "rectangular X" "rectangular Y" "2 \<le> length X" "length Y \<noteq> length X"
  shows "test_statistic self X Y =
           (Inl (if length Y < 2 then IndexError else ValueError), self)"
  by (rule test_statistic_mismatch [OF assms])

theorem statistic_row_mismatch_witness:
  "rectangular [[0], [1]] \<and> rectangular [[0], [1], [2]] \<and>
   test_statistic unset [[0], [1]] [[0], [1], [2]] = (Inl ValueError, unset)"
proof -
  have r: "rectangular [[0], [1]]" "rectangular [[0], [1], [2]]" by code_simp+
  from statistic_row_mismatch [OF r, of unset] r show ?thesis by simp
qed

text \<open>
  X5. For \<open>n\<close>-by-\<open>n\<close> distance matrices with \<open>n\<close> up to 4096, no product of lines 77--80
  wraps, and \<open>test_statistic\<close> returns the sum over all ordered pairs \<open>i \<noteq> j\<close> of the
  contribution the specification describes; it raises nothing, returns the empty
  metadata and stores the statistic in the object.
\<close>

theorem statistic_is_sum_of_contributions_bounded:
  assumes "is_square n Dx" "zero_diagonal n Dx" "is_square n Dy" "zero_diagonal n Dy"
    and "n \<le> 4096"
  shows "test_statistic self Dx Dy =
           (Inr (spec_statistic Dx Dy n, Map.empty),
            self\<lparr>attr_test_statistic_metadata := Some Map.empty,
                 attr_test_statistic := Some (spec_statistic Dx Dy n)\<rparr>)"
  by (simp add: test_statistic_def dist_mtx_pass [OF assms(1,2)] dist_mtx_pass [OF assms(3,4)]
        corr_of_square [OF assms(1,3)] spec_statistic_cell [OF assms(5)])

theorem statistic_is_sum_of_contributions_bounded_witness:
  "is_square 4 example_Dx \<and> zero_diagonal 4 example_Dx \<and>
   is_square 4 example_Dy \<and> zero_diagonal 4 example_Dy \<and> (4::nat) \<le> 4096 \<and>
   fst (test_statistic unset example_Dx example_Dy) =
     Inr (spec_statistic example_Dx example_Dy 4, Map.empty) \<and>
   spec_statistic example_Dx example_Dy 4 = 2"
proof -
  have x: "is_square 4 example_Dx" "zero_diagonal 4 example_Dx" by code_simp+
  have y: "is_square 4 example_Dy" "zero_diagonal 4 example_Dy" by code_simp+
  have b: "(4::nat) \<le> 4096" by simp
  have c: "corr_of example_Dx example_Dy = Inr 2" by code_simp
  have t: "fst (test_statistic unset example_Dx example_Dy) = Inr (2, Map.empty)"
    by (simp add: test_statistic_def dist_mtx_pass [OF x] dist_mtx_pass [OF y] c)
  from statistic_is_sum_of_contributions_bounded [OF x y b, of unset] t x y show ?thesis by simp
qed

text \<open>
  X6. For rectangular inputs with the same number of rows, up to 4096, \<open>test_statistic\<close>
  raises nothing and the statistic it returns is not negative.
\<close>

theorem statistic_nonneg_bounded:
  assumes "rectangular X" "rectangular Y" "length X = length Y" "length X \<le> 4096"
  shows "\<exists>v. fst (test_statistic self X Y) = Inr (v, Map.empty) \<and> 0 \<le> v"
proof -
  have "0 \<le> (\<Sum>r<length X. \<Sum>c<length X. cell (dist_mtx X) (dist_mtx Y) (length X) r c)"
    by (intro sum_nonneg cell_nonneg assms(4)) simp_all
  then show ?thesis
    using test_statistic_rectangular [OF assms(1,2) refl assms(3) [symmetric], of self] by simp
qed

theorem statistic_nonneg_bounded_witness:
  "rectangular example_Dx \<and> rectangular example_Dy \<and> length example_Dx = length example_Dy \<and>
   length example_Dx \<le> 4096 \<and>
   fst (test_statistic unset example_Dx example_Dy) = Inr (2, Map.empty) \<and> (0::real) \<le> 2"
proof -
  have r: "rectangular example_Dx" "rectangular example_Dy" by code_simp+
  have l: "length example_Dx = length example_Dy" "length example_Dx \<le> 4096" by code_simp+
  have x: "is_square 4 example_Dx" "zero_diagonal 4 example_Dx" by code_simp+
  have y: "is_square 4 example_Dy" "zero_diagonal 4 example_Dy" by code_simp+
  have c: "corr_of example_Dx example_Dy = Inr 2" by code_simp
  have t: "fst (test_statistic unset example_Dx example_Dy) = Inr (2, Map.empty)"
    by (simp add: test_statistic_def dist_mtx_pass [OF x] dist_mtx_pass [OF y] c)
  from statistic_nonneg_bounded [OF r l, of unset] t r l show ?thesis by simp
qed

end
